theory Spec2Isabelle
  imports Main "HOL-Library.AList"
begin

section \<open>Retention: conversations, messages and the clearing queries\<close>

text \<open>
  The tables \<open>conversations\<close> and \<open>messages\<close> of the schema, as lists of rows.
  A timestamp is the number of milliseconds since the epoch (what \<open>Date.getTime()\<close>
  returns); a nullable column is an \<open>option\<close>. The columns \<open>last_message_at\<close>,
  \<open>auto_clear_after\<close> and \<open>last_cleared_at\<close> carry no \<open>notNull()\<close>, so they are
  nullable; \<open>auto_clear_after\<close> is a \<open>varchar\<close>, so it is a string.
\<close>

type_synonym timestamp = int

record conversation =
  conv_id :: int
  participant1Id :: string
  participant2Id :: string
  lastMessageAt :: "timestamp option"
  conv_createdAt :: "timestamp option"
  autoClearAfter :: "string option"
  lastClearedAt :: "timestamp option"

record message_row =
  msg_id :: int
  msg_conversationId :: int
  senderId :: string
  content :: string
  messageType :: "string option"
  encrypted :: "bool option"
  msg_createdAt :: "timestamp option"

record db =
  conversations :: "conversation list"
  messages :: "message_row list"

text \<open>
  SQL conditions are three-valued: a comparison with NULL is NULL (\<open>None\<close>), and a
  row is selected only when the condition is true.
\<close>

type_synonym sql_bool = "bool option"

definition sql_eq :: "'a option \<Rightarrow> 'a \<Rightarrow> sql_bool" where
  "sql_eq col v = (case col of None \<Rightarrow> None | Some x \<Rightarrow> Some (x = v))"

definition sql_lt :: "timestamp option \<Rightarrow> timestamp \<Rightarrow> sql_bool" where
  "sql_lt col v = (case col of None \<Rightarrow> None | Some x \<Rightarrow> Some (x < v))"

fun sql_and :: "sql_bool \<Rightarrow> sql_bool \<Rightarrow> sql_bool" where
  "sql_and (Some False) _ = Some False"
| "sql_and _ (Some False) = Some False"
| "sql_and (Some True) (Some True) = Some True"
| "sql_and _ _ = None"

fun sql_or :: "sql_bool \<Rightarrow> sql_bool \<Rightarrow> sql_bool" where
  "sql_or (Some True) _ = Some True"
| "sql_or _ (Some True) = Some True"
| "sql_or (Some False) (Some False) = Some False"
| "sql_or _ _ = None"

text \<open>
  The \<open>where\<close> clause of \<open>getConversationsToClean\<close>, for one row. \<open>now\<close> is the
  value of \<open>new Date()\<close> at the call.
\<close>

definition clean_where :: "timestamp \<Rightarrow> conversation \<Rightarrow> sql_bool" where
  "clean_where now c =
     (let oneDayAgo = now - 24 * 60 * 60 * 1000;
          oneWeekAgo = now - 7 * 24 * 60 * 60 * 1000;
          thirtyDaysAgo = now - 30 * 24 * 60 * 60 * 1000
      in sql_or
           (sql_or
              (sql_and (sql_eq (autoClearAfter c) ''24h'') (sql_lt (lastMessageAt c) oneDayAgo))
              (sql_and (sql_eq (autoClearAfter c) ''1week'') (sql_lt (lastMessageAt c) oneWeekAgo)))
           (sql_and (sql_eq (autoClearAfter c) ''30days'') (sql_lt (lastMessageAt c) thirtyDaysAgo)))"

definition getConversationsToClean :: "timestamp \<Rightarrow> db \<Rightarrow> conversation list" where
  "getConversationsToClean now d = filter (\<lambda>c. clean_where now c = Some True) (conversations d)"

text \<open>
  \<open>clearConversationMessages\<close>: delete the messages of the conversation, then stamp
  the conversation with \<open>new Date()\<close> (the argument \<open>now\<close>).
\<close>

definition clearConversationMessages :: "timestamp \<Rightarrow> int \<Rightarrow> db \<Rightarrow> db" where
  "clearConversationMessages now conversationId d =
     d\<lparr>messages := filter (\<lambda>m. msg_conversationId m \<noteq> conversationId) (messages d),
       conversations :=
         map (\<lambda>c. if conv_id c = conversationId then c\<lparr>lastClearedAt := Some now\<rparr> else c)
           (conversations d)\<rparr>"

text \<open>The messages a conversation owns.\<close>

definition messages_of :: "int \<Rightarrow> db \<Rightarrow> message_row list" where
  "messages_of conversationId d =
     filter (\<lambda>m. msg_conversationId m = conversationId) (messages d)"

text \<open>
  The threshold table of the specification (section 4.4), in milliseconds; \<open>never\<close>
  and every other string have no threshold.
\<close>

definition spec_threshold :: "string \<Rightarrow> int option" where
  "spec_threshold p =
     (if p = ''24h'' then Some (24 * 60 * 60 * 1000)
      else if p = ''1week'' then Some (7 * 24 * 60 * 60 * 1000)
      else if p = ''30days'' then Some (30 * 24 * 60 * 60 * 1000)
      else None)"

text \<open>
  Modelled from the spec: the sweep driver (the periodic task that calls the two
  storage methods) is not among the source files. Section 4.5 has it enumerate the
  conversations, filter them through the classifier and clear each due one at the
  sweep time. It is written here over the source's \<open>getConversationsToClean\<close> and
  \<open>clearConversationMessages\<close>.
\<close>

definition sweep :: "timestamp \<Rightarrow> db \<Rightarrow> db" where
  "sweep now d =
     fold (\<lambda>c. clearConversationMessages now (conv_id c)) (getConversationsToClean now d) d"


section \<open>The signaling relay\<close>

subsection \<open>Messages, frames and sockets\<close>

text \<open>
  An inbound frame after \<open>JSON.parse\<close>, with the type the handler casts it to:
  \<open>SignalingMessage & { userId?: string }\<close>. At run time every field may be absent
  (\<open>None\<close> is \<open>undefined\<close>), and \<open>type\<close> is any string: the handler compares it
  with \<open>'auth'\<close>. The payload \<open>data\<close> is of an arbitrary type \<open>'d\<close>. The field
  \<open>sig_from\<close> is the property \<open>from\<close>, which a sender may supply and which the relay
  overwrites.
\<close>

record 'd signaling_message =
  sig_type :: "string option"
  target :: "string option"
  data :: 'd
  conversationId :: "int option"
  sig_userId :: "string option"
  sig_from :: "string option"

text \<open>The seven kinds of the interface \<open>SignalingMessage\<close>.\<close>

definition signaling_kinds :: "string list" where
  "signaling_kinds =
     [''offer'', ''answer'', ''ice-candidate'', ''call-start'', ''call-end'',
      ''call-accept'', ''call-reject'']"

text \<open>
  What the handler receives: text on which \<open>JSON.parse\<close> throws, or a parsed
  message.
\<close>

datatype 'd inbound = Malformed | Parsed "'d signaling_message"

text \<open>
  An object literal is a list of properties in insertion order; assigning an existing
  key keeps its place (\<open>AList.update\<close>). \<open>spread base ext\<close> is
  \<open>{...base, ...ext}\<close>.
\<close>

datatype 'd jsval = Str string | Num int | Other 'd

type_synonym 'd obj = "(string \<times> 'd jsval) list"

definition spread :: "'d obj \<Rightarrow> 'd obj \<Rightarrow> 'd obj" where
  "spread base ext = fold (\<lambda>(k, v) ob. AList.update k v ob) ext base"

text \<open>What a socket is sent: a forwarded signaling message or a broadcast object.\<close>

datatype 'd frame = Signal "'d signaling_message" | Event "'d obj"

datatype ready_state = CONNECTING | OPEN | CLOSING | CLOSED

text \<open>
  A \<open>WebSocketWithUser\<close>. \<open>sent\<close> lists the frames its \<open>send\<close> has accepted, oldest
  first. \<open>send\<close> is the transport library's method and is not part of these sources:
  \<open>sendThrows\<close> says whether a call of it on this socket throws. The library throws
  on a socket that is still connecting and not on an open one; a theorem that relies
  on this has it as a hypothesis.
\<close>

record 'd socket =
  userId :: "string option"
  readyState :: ready_state
  sendThrows :: bool
  sent :: "'d frame list"

text \<open>
  The state of the relay: the map \<open>connectedClients\<close> (a JavaScript \<open>Map\<close>, in
  insertion order) from identity to socket, and the sockets themselves, by reference.
\<close>

record 'd relay =
  connectedClients :: "(string \<times> nat) list"
  sockets :: "nat \<Rightarrow> 'd socket"

datatype error = SendError

text \<open>JavaScript truthiness of an optional string: absent and empty are falsy.\<close>

definition truthy :: "string option \<Rightarrow> bool" where
  "truthy s = (case s of None \<Rightarrow> False | Some x \<Rightarrow> x \<noteq> [])"

definition ws_send :: "nat \<Rightarrow> 'd frame \<Rightarrow> 'd relay \<Rightarrow> error + 'd relay" where
  "ws_send ws f st =
     (if sendThrows (sockets st ws) then Inl SendError
      else Inr (st\<lparr>sockets := (sockets st)
                  (ws := (sockets st ws)\<lparr>sent := sent (sockets st ws) @ [f]\<rparr>)\<rparr>))"

subsection \<open>The message and close handlers\<close>

text \<open>
  The two authentication branches do the same: set \<open>ws.userId\<close> and
  \<open>connectedClients.set(data.userId, ws)\<close>.
\<close>

definition bind_user :: "nat \<Rightarrow> string \<Rightarrow> 'd relay \<Rightarrow> 'd relay" where
  "bind_user ws u st =
     st\<lparr>sockets := (sockets st)(ws := (sockets st ws)\<lparr>userId := Some u\<rparr>),
        connectedClients := AList.update u ws (connectedClients st)\<rparr>"

text \<open>
  The outcome names the branch the handler took; \<open>Caught\<close> is the \<open>catch\<close> block of
  the handler, which logs the exception and returns.
\<close>

datatype outcome = Authenticated | Forwarded | TargetNotConnected | InvalidMessage | Caught

definition on_message :: "nat \<Rightarrow> 'd inbound \<Rightarrow> 'd relay \<Rightarrow> outcome \<times> 'd relay" where
  "on_message ws inb st =
     (case inb of
        Malformed \<Rightarrow> (Caught, st)
      | Parsed d \<Rightarrow>
          if truthy (sig_userId d) \<and> \<not> truthy (sig_type d) then
            (Authenticated, bind_user ws (the (sig_userId d)) st)
          else if sig_type d = Some ''auth'' \<and> truthy (sig_userId d) then
            (Authenticated, bind_user ws (the (sig_userId d)) st)
          else if truthy (userId (sockets st ws)) \<and> truthy (target d) then
            (case map_of (connectedClients st) (the (target d)) of
               None \<Rightarrow> (TargetNotConnected, st)
             | Some targetWs \<Rightarrow>
                 if readyState (sockets st targetWs) = OPEN then
                   (case ws_send targetWs (Signal (d\<lparr>sig_from := userId (sockets st ws)\<rparr>)) st of
                      Inl e \<Rightarrow> (Caught, st)
                    | Inr st' \<Rightarrow> (Forwarded, st'))
                 else (TargetNotConnected, st))
          else (InvalidMessage, st))"

text \<open>The condition of the two authentication branches.\<close>

definition is_auth :: "'d signaling_message \<Rightarrow> bool" where
  "is_auth d \<longleftrightarrow>
     truthy (sig_userId d) \<and> \<not> truthy (sig_type d) \<or>
     sig_type d = Some ''auth'' \<and> truthy (sig_userId d)"

definition on_close :: "nat \<Rightarrow> 'd relay \<Rightarrow> 'd relay" where
  "on_close ws st =
     (if truthy (userId (sockets st ws)) then
        st\<lparr>connectedClients := AList.delete (the (userId (sockets st ws))) (connectedClients st)\<rparr>
      else st)"

text \<open>
  A socket closes: the transport sets its \<open>readyState\<close> to \<open>CLOSED\<close> and emits
  \<open>'close'\<close>, which runs the handler.
\<close>

definition close_event :: "nat \<Rightarrow> 'd relay \<Rightarrow> 'd relay" where
  "close_event ws st =
     on_close ws (st\<lparr>sockets := (sockets st)(ws := (sockets st ws)\<lparr>readyState := CLOSED\<rparr>)\<rparr>)"

subsection \<open>The broadcaster\<close>

text \<open>
  \<open>broadcastMessage(conversationId, message)\<close>; the conversation id is written
  \<open>cid\<close> below. \<open>forEach_send\<close> is the loop \<open>connectedClients.forEach\<close> over
  the sockets of the map, in its order. An exception of \<open>send\<close> is not caught in
  the loop: it ends the loop and reaches the caller, with the state as it is then.
\<close>

fun forEach_send :: "nat list \<Rightarrow> 'd frame \<Rightarrow> 'd relay \<Rightarrow> error option \<times> 'd relay" where
  "forEach_send [] f st = (None, st)"
| "forEach_send (ws # rest) f st =
     (if readyState (sockets st ws) = OPEN then
        (case ws_send ws f st of
           Inl e \<Rightarrow> (Some e, st)
         | Inr st' \<Rightarrow> forEach_send rest f st')
      else forEach_send rest f st)"

definition broadcast_frame :: "int \<Rightarrow> 'd obj \<Rightarrow> 'd frame" where
  "broadcast_frame cid message =
     Event (spread [(''type'', Str ''broadcast''), (''conversationId'', Num cid)] message)"

definition broadcastMessage :: "int \<Rightarrow> 'd obj \<Rightarrow> 'd relay \<Rightarrow> error option \<times> 'd relay" where
  "broadcastMessage cid message st =
     forEach_send (map snd (connectedClients st)) (broadcast_frame cid message) st"

text \<open>
  The event the message route broadcasts after \<open>storage.addMessage\<close> returned the
  stored row: \<open>{ type: 'new-message', data: message }\<close>.
\<close>

definition stored_message_event :: "'d \<Rightarrow> 'd obj" where
  "stored_message_event row = [(''type'', Str ''new-message''), (''data'', Other row)]"

subsection \<open>Runs of the relay\<close>

datatype 'd event = Message nat "'d inbound" | Close nat | Broadcast_ev int "'d obj"

fun step :: "'d event \<Rightarrow> 'd relay \<Rightarrow> 'd relay" where
  "step (Message ws inb) st = snd (on_message ws inb st)"
| "step (Close ws) st = close_event ws st"
| "step (Broadcast_ev cid message) st = snd (broadcastMessage cid message st)"

definition run :: "'d event list \<Rightarrow> 'd relay \<Rightarrow> 'd relay" where
  "run evs st = fold step evs st"

text \<open>The relay at start-up: \<open>new Map()\<close>, over any store of sockets.\<close>

definition initial_relay :: "(nat \<Rightarrow> 'd socket) \<Rightarrow> 'd relay" where
  "initial_relay socks = \<lparr>connectedClients = [], sockets = socks\<rparr>"

text \<open>The open sockets among the values of the map, in its order, with repetitions.\<close>

definition open_registered :: "'d relay \<Rightarrow> nat list" where
  "open_registered st =
     filter (\<lambda>ws. readyState (sockets st ws) = OPEN) (map snd (connectedClients st))"

subsection \<open>Concrete states\<close>

text \<open>
  A store in which no socket has connected, and the states, messages and tables the
  concrete instances below are about.
\<close>

definition no_sockets :: "nat \<Rightarrow> 'd socket" where
  "no_sockets = (\<lambda>ws. \<lparr>userId = None, readyState = CLOSED, sendThrows = False, sent = []\<rparr>)"

definition two_clients :: "string relay" where
  "two_clients =
     \<lparr>connectedClients = [(''u1'', 1), (''u2'', 2)],
      sockets = no_sockets
        (1 := \<lparr>userId = Some ''u1'', readyState = OPEN, sendThrows = False, sent = []\<rparr>,
         2 := \<lparr>userId = Some ''u2'', readyState = OPEN, sendThrows = False, sent = []\<rparr>)\<rparr>"

definition offer_to :: "string \<Rightarrow> string signaling_message" where
  "offer_to T =
     \<lparr>sig_type = Some ''offer'', target = Some T, data = ''sdp'', conversationId = Some 7,
      sig_userId = None, sig_from = None\<rparr>"

definition auth_as :: "string \<Rightarrow> string signaling_message" where
  "auth_as u =
     \<lparr>sig_type = Some ''auth'', target = None, data = [], conversationId = None,
      sig_userId = Some u, sig_from = None\<rparr>"

definition with_newcomer :: "string relay" where
  "with_newcomer =
     \<lparr>connectedClients = [(''u1'', 1)],
      sockets = no_sockets
        (1 := \<lparr>userId = Some ''u1'', readyState = OPEN, sendThrows = False, sent = []\<rparr>,
         3 := \<lparr>userId = None, readyState = OPEN, sendThrows = False, sent = []\<rparr>)\<rparr>"


definition stale_day :: db where
  "stale_day =
     \<lparr>conversations =
        [\<lparr>conv_id = 1, participant1Id = ''u1'', participant2Id = ''u2'',
          lastMessageAt = Some 0, conv_createdAt = Some 0, autoClearAfter = Some ''24h'',
          lastClearedAt = None\<rparr>],
      messages =
        [\<lparr>msg_id = 10, msg_conversationId = 1, senderId = ''u1'', content = ''hello'',
          messageType = Some ''text'', encrypted = Some True, msg_createdAt = Some 0\<rparr>]\<rparr>"

definition two_newcomers :: "string relay" where
  "two_newcomers =
     \<lparr>connectedClients = [],
      sockets = no_sockets
        (1 := \<lparr>userId = None, readyState = OPEN, sendThrows = False, sent = []\<rparr>,
         2 := \<lparr>userId = None, readyState = OPEN, sendThrows = False, sent = []\<rparr>)\<rparr>"


section \<open>Properties of the retention queries\<close>

subsection \<open>The selection condition\<close>

lemma sql_and_True: "sql_and a b = Some True \<longleftrightarrow> a = Some True \<and> b = Some True"
  by (cases "(a, b)" rule: sql_and.cases) auto

lemma sql_or_True: "sql_or a b = Some True \<longleftrightarrow> a = Some True \<or> b = Some True"
  by (cases "(a, b)" rule: sql_or.cases) auto

lemma sql_eq_True: "sql_eq col v = Some True \<longleftrightarrow> col = Some v"
  by (auto simp add: sql_eq_def split: option.splits)

lemma sql_lt_True: "sql_lt col v = Some True \<longleftrightarrow> (\<exists>t. col = Some t \<and> t < v)"
  by (auto simp add: sql_lt_def split: option.splits)

lemma clean_where_cases:
  "clean_where now c = Some True \<longleftrightarrow>
     (\<exists>t. lastMessageAt c = Some t \<and>
        (autoClearAfter c = Some ''24h'' \<and> t < now - 86400000 \<or>
         autoClearAfter c = Some ''1week'' \<and> t < now - 604800000 \<or>
         autoClearAfter c = Some ''30days'' \<and> t < now - 2592000000))"
  unfolding clean_where_def Let_def sql_and_True sql_or_True sql_eq_True sql_lt_True
  by auto

lemma spec_threshold_Some:
  "spec_threshold p = Some th \<longleftrightarrow>
     (p = ''24h'' \<and> th = 86400000 \<or> p = ''1week'' \<and> th = 604800000 \<or>
      p = ''30days'' \<and> th = 2592000000)"
  unfolding spec_threshold_def by (simp split: if_splits)

lemma clean_where_iff:
  "clean_where now c = Some True \<longleftrightarrow>
     (\<exists>p th t. autoClearAfter c = Some p \<and> spec_threshold p = Some th \<and>
        lastMessageAt c = Some t \<and> th < now - t)"
  unfolding clean_where_cases spec_threshold_Some
  by (cases "lastMessageAt c"; cases "autoClearAfter c") auto

text \<open>
  Claim C1, as amended. A conversation is returned by \<open>getConversationsToClean\<close> at
  time \<open>now\<close> if and only if its policy is one of \<open>24h\<close>, \<open>1week\<close>, \<open>30days\<close>, it
  has a last-activity timestamp, and \<open>now\<close> minus that timestamp is strictly greater than
  the threshold of the policy (the query compares with \<open><\<close>); a conversation with
  policy \<open>never\<close> is never returned.
\<close>

theorem C1_due_iff_strictly_older:
  "(c \<in> set (getConversationsToClean now d) \<longleftrightarrow>
      c \<in> set (conversations d) \<and>
      (\<exists>p th t. autoClearAfter c = Some p \<and> spec_threshold p = Some th \<and>
         lastMessageAt c = Some t \<and> th < now - t))
   \<and> (autoClearAfter c = Some ''never'' \<longrightarrow> c \<notin> set (getConversationsToClean now d))"
proof -
  have never: "spec_threshold ''never'' = None"
    by (simp add: spec_threshold_def)
  have sel: "c \<in> set (getConversationsToClean now d) \<longleftrightarrow>
      c \<in> set (conversations d) \<and> clean_where now c = Some True"
    by (simp add: getConversationsToClean_def)
  show ?thesis
    unfolding sel clean_where_iff using never by auto
qed

text \<open>
  Claim C1 as stated fails on the boundary: a \<open>24h\<close> conversation whose last
  activity is exactly 24 hours before \<open>now\<close> has reached the threshold and is not
  returned.
\<close>

theorem C1_counterexample:
  "autoClearAfter \<lparr>conv_id = 1, participant1Id = ''u1'', participant2Id = ''u2'',
       lastMessageAt = Some 0, conv_createdAt = Some 0, autoClearAfter = Some ''24h'',
       lastClearedAt = None\<rparr> \<noteq> Some ''never''
   \<and> spec_threshold ''24h'' = Some 86400000
   \<and> (86400000::int) - 0 \<ge> 86400000
   \<and> getConversationsToClean 86400000
        \<lparr>conversations = [\<lparr>conv_id = 1, participant1Id = ''u1'', participant2Id = ''u2'',
           lastMessageAt = Some 0, conv_createdAt = Some 0, autoClearAfter = Some ''24h'',
           lastClearedAt = None\<rparr>], messages = []\<rparr> = []"
  by (simp add: getConversationsToClean_def clean_where_cases spec_threshold_def)

text \<open>
  Claim C1, two instances: a conversation with policy \<open>never\<close>, idle for over a
  hundred days, is not returned; a \<open>24h\<close> conversation idle for one millisecond more
  than 24 hours is.
\<close>

theorem C1_witness:
  "autoClearAfter \<lparr>conv_id = 2, participant1Id = ''u1'', participant2Id = ''u3'',
       lastMessageAt = Some 0, conv_createdAt = Some 0, autoClearAfter = Some ''never'',
       lastClearedAt = None\<rparr> = Some ''never''
   \<and> \<lparr>conv_id = 2, participant1Id = ''u1'', participant2Id = ''u3'',
       lastMessageAt = Some 0, conv_createdAt = Some 0, autoClearAfter = Some ''never'',
       lastClearedAt = None\<rparr>
     \<notin> set (getConversationsToClean 10000000000
         \<lparr>conversations = [\<lparr>conv_id = 2, participant1Id = ''u1'', participant2Id = ''u3'',
            lastMessageAt = Some 0, conv_createdAt = Some 0, autoClearAfter = Some ''never'',
            lastClearedAt = None\<rparr>], messages = []\<rparr>)
   \<and> \<lparr>conv_id = 1, participant1Id = ''u1'', participant2Id = ''u2'',
       lastMessageAt = Some 0, conv_createdAt = Some 0, autoClearAfter = Some ''24h'',
       lastClearedAt = None\<rparr>
     \<in> set (getConversationsToClean 86400001 stale_day)"
proof -
  have never: "\<lparr>conv_id = 2, participant1Id = ''u1'', participant2Id = ''u3'',
       lastMessageAt = Some 0, conv_createdAt = Some 0, autoClearAfter = Some ''never'',
       lastClearedAt = None\<rparr>
     \<notin> set (getConversationsToClean 10000000000
         \<lparr>conversations = [\<lparr>conv_id = 2, participant1Id = ''u1'', participant2Id = ''u3'',
            lastMessageAt = Some 0, conv_createdAt = Some 0, autoClearAfter = Some ''never'',
            lastClearedAt = None\<rparr>], messages = []\<rparr>)"
    using C1_due_iff_strictly_older [THEN conjunct2, of
      "\<lparr>conv_id = 2, participant1Id = ''u1'', participant2Id = ''u3'',
         lastMessageAt = Some 0, conv_createdAt = Some 0, autoClearAfter = Some ''never'',
         lastClearedAt = None\<rparr>"]
    by simp
  have th: "spec_threshold ''24h'' = Some 86400000"
    by (simp add: spec_threshold_def)
  have due: "\<lparr>conv_id = 1, participant1Id = ''u1'', participant2Id = ''u2'',
       lastMessageAt = Some 0, conv_createdAt = Some 0, autoClearAfter = Some ''24h'',
       lastClearedAt = None\<rparr>
     \<in> set (getConversationsToClean 86400001 stale_day)"
    using C1_due_iff_strictly_older [THEN conjunct1, of
      "\<lparr>conv_id = 1, participant1Id = ''u1'', participant2Id = ''u2'',
         lastMessageAt = Some 0, conv_createdAt = Some 0, autoClearAfter = Some ''24h'',
         lastClearedAt = None\<rparr>" 86400001 stale_day] th
    by (simp add: stale_day_def)
  from never due show ?thesis
    by simp
qed

subsection \<open>Clearing twice\<close>

lemma messages_clear:
  "messages (clearConversationMessages t i d) = filter (\<lambda>m. msg_conversationId m \<noteq> i) (messages d)"
  by (simp add: clearConversationMessages_def)

lemma conversations_clear:
  "conversations (clearConversationMessages t i d) =
     map (\<lambda>c. if conv_id c = i then c\<lparr>lastClearedAt := Some t\<rparr> else c) (conversations d)"
  by (simp add: clearConversationMessages_def)

lemma messages_fold_clear:
  "messages (fold (\<lambda>c. clearConversationMessages t (conv_id c)) cs d) =
     filter (\<lambda>m. msg_conversationId m \<notin> conv_id ` set cs) (messages d)"
proof (induction cs arbitrary: d)
  case Nil
  show ?case by simp
next
  case (Cons c cs)
  have "filter (\<lambda>m. msg_conversationId m \<notin> conv_id ` set cs)
          (filter (\<lambda>m. msg_conversationId m \<noteq> conv_id c) (messages d)) =
        filter (\<lambda>m. msg_conversationId m \<notin> conv_id ` set (c # cs)) (messages d)"
    by (auto intro: filter_cong)
  then show ?case
    by (simp add: Cons.IH messages_clear del: set_simps)
qed

lemma clean_where_stamp [simp]:
  "clean_where now (c\<lparr>lastClearedAt := x\<rparr>) = clean_where now c"
  by (simp add: clean_where_def)

lemma due_ids_clear:
  "conv_id ` set (getConversationsToClean now (clearConversationMessages t i d)) =
   conv_id ` set (getConversationsToClean now d)"
proof -
  define f :: "conversation \<Rightarrow> conversation" where "f = (\<lambda>c. if conv_id c = i then c\<lparr>lastClearedAt := Some t\<rparr> else c)"
  have same: "clean_where now (f c) = clean_where now c" for c
    by (simp add: f_def)
  have ident: "conv_id (f c) = conv_id c" for c
    by (simp add: f_def)
  have "conversations (clearConversationMessages t i d) = map f (conversations d)"
    by (simp add: conversations_clear f_def)
  then have "getConversationsToClean now (clearConversationMessages t i d) =
        map f (getConversationsToClean now d)"
    by (simp add: getConversationsToClean_def filter_map o_def same)
  then show ?thesis
    by (simp add: image_image ident)
qed

lemma due_ids_fold_clear:
  "conv_id ` set (getConversationsToClean now (fold (\<lambda>c. clearConversationMessages t (conv_id c)) cs d)) =
   conv_id ` set (getConversationsToClean now d)"
  by (induction cs arbitrary: d) (simp_all add: due_ids_clear)

lemma messages_sweep:
  "messages (sweep t d) =
     filter (\<lambda>m. msg_conversationId m \<notin> conv_id ` set (getConversationsToClean t d)) (messages d)"
  by (simp add: sweep_def messages_fold_clear)

lemma due_ids_sweep:
  "conv_id ` set (getConversationsToClean now (sweep t d)) =
   conv_id ` set (getConversationsToClean now d)"
  by (simp add: sweep_def due_ids_fold_clear)

text \<open>
  Claim C7. For a conversation that a sweep at time \<open>t\<close> clears: after the clear it
  owns no messages; clearing it again leaves the messages table as the first clear
  left it; after the sweep it owns no messages; a second sweep at the same time
  leaves the messages table unchanged, and after a second sweep at any time the
  conversation still owns no messages, so the second sweep deleted none for it.
\<close>

theorem C7_clear_idempotent:
  assumes "c \<in> set (getConversationsToClean t d)"
  shows "messages_of (conv_id c) (clearConversationMessages t (conv_id c) d) = []
       \<and> messages (clearConversationMessages t' (conv_id c) (clearConversationMessages t (conv_id c) d)) =
           messages (clearConversationMessages t (conv_id c) d)
       \<and> messages_of (conv_id c) (sweep t d) = []
       \<and> messages (sweep t (sweep t d)) = messages (sweep t d)
       \<and> messages_of (conv_id c) (sweep t' (sweep t d)) = []"
proof -
  have once: "messages_of (conv_id c) (clearConversationMessages t (conv_id c) d) = []"
    by (simp add: messages_of_def messages_clear)
  have twice: "messages (clearConversationMessages t' (conv_id c) (clearConversationMessages t (conv_id c) d)) =
         messages (clearConversationMessages t (conv_id c) d)"
    by (simp add: messages_clear)
  from assms have in_due: "conv_id c \<in> conv_id ` set (getConversationsToClean t d)"
    by (rule imageI)
  then have swept: "messages_of (conv_id c) (sweep t d) = []"
    by (auto simp add: messages_of_def messages_sweep filter_empty_conv)
  have again: "messages (sweep t (sweep t d)) = messages (sweep t d)"
    by (simp add: messages_sweep [of t "sweep t d"] due_ids_sweep)
       (simp add: messages_sweep)
  from in_due have later: "messages_of (conv_id c) (sweep t' (sweep t d)) = []"
    by (auto simp add: messages_of_def messages_sweep [of t' "sweep t d"] messages_sweep [of t d]
        filter_empty_conv)
  from once twice swept again later show ?thesis
    by simp
qed

text \<open>
  Claim C7, an instance: a \<open>24h\<close> conversation idle for 25 hours, with one
  message.
\<close>

theorem C7_witness:
  "getConversationsToClean 90000000 stale_day = conversations stale_day
   \<and> messages_of 1 stale_day \<noteq> []
   \<and> messages_of 1 (sweep 90000000 stale_day) = []
   \<and> messages (sweep 90000000 (sweep 90000000 stale_day)) = messages (sweep 90000000 stale_day)"
proof -
  have due: "getConversationsToClean 90000000 stale_day = conversations stale_day"
    by (simp add: getConversationsToClean_def stale_day_def clean_where_cases)
  then have h: "hd (conversations stale_day) \<in> set (getConversationsToClean 90000000 stale_day)"
    by (simp add: stale_day_def)
  have i: "conv_id (hd (conversations stale_day)) = 1"
    by (simp add: stale_day_def)
  have m: "messages_of 1 stale_day \<noteq> []"
    by (simp add: messages_of_def stale_day_def)
  from C7_clear_idempotent [OF h, of 90000000] i due m
  show ?thesis
    by simp
qed


section \<open>Properties of the relay\<close>

subsection \<open>The branches of the message handler\<close>

lemma truthy_Some [simp]: "truthy (Some x) \<longleftrightarrow> x \<noteq> []"
  by (simp add: truthy_def)

lemma truthy_None [simp]: "\<not> truthy None"
  by (simp add: truthy_def)

lemma truthyE: "truthy s \<Longrightarrow> \<exists>x. s = Some x \<and> x \<noteq> []"
  by (cases s) simp_all

lemma kind_not_auth:
  assumes "sig_type d = Some k" and "k \<in> set signaling_kinds"
  shows "\<not> is_auth d"
  using assms by (auto simp add: is_auth_def signaling_kinds_def)

lemma on_message_not_auth:
  assumes "\<not> is_auth d"
  shows "on_message ws (Parsed d) st =
     (if truthy (userId (sockets st ws)) \<and> truthy (target d) then
        (case map_of (connectedClients st) (the (target d)) of
           None \<Rightarrow> (TargetNotConnected, st)
         | Some targetWs \<Rightarrow>
             if readyState (sockets st targetWs) = OPEN then
               (case ws_send targetWs (Signal (d\<lparr>sig_from := userId (sockets st ws)\<rparr>)) st of
                  Inl e \<Rightarrow> (Caught, st)
                | Inr st' \<Rightarrow> (Forwarded, st'))
             else (TargetNotConnected, st))
      else (InvalidMessage, st))"
proof -
  from assms have a: "(truthy (sig_userId d) \<and> \<not> truthy (sig_type d)) = False"
    and b: "(sig_type d = Some ''auth'' \<and> truthy (sig_userId d)) = False"
    by (auto simp add: is_auth_def)
  show ?thesis
    by (simp only: on_message_def inbound.case a b if_False)
qed

lemma on_message_auth:
  assumes "is_auth d"
  shows "on_message ws (Parsed d) st = (Authenticated, bind_user ws (the (sig_userId d)) st)"
proof (cases "truthy (sig_userId d) \<and> \<not> truthy (sig_type d)")
  case True
  then show ?thesis
    by (simp add: on_message_def)
next
  case False
  with assms have "sig_type d = Some ''auth'' \<and> truthy (sig_userId d)"
    by (auto simp add: is_auth_def)
  then show ?thesis
    by (simp add: on_message_def)
qed

text \<open>
  Claim C2. A sender \<open>S\<close> is bound to the socket \<open>ws\<close>; the message has one of the
  seven kinds and a non-empty target \<open>T\<close>, which the map sends to the socket \<open>tw\<close>;
  \<open>tw\<close> is open and its \<open>send\<close> returns normally. Then the handler forwards: the
  only change of the state is one more frame on \<open>tw\<close>, the message with \<open>from\<close> set
  to \<open>S\<close> and with its type, data and conversation id as they came.
\<close>

theorem C2_forward_delivers_one_copy:
  assumes "userId (sockets st ws) = Some S" and "S \<noteq> []"
    and "sig_type d = Some k" and "k \<in> set signaling_kinds"
    and "target d = Some T" and "T \<noteq> []"
    and "map_of (connectedClients st) T = Some tw"
    and "readyState (sockets st tw) = OPEN"
    and "\<not> sendThrows (sockets st tw)"
  shows "on_message ws (Parsed d) st =
           (Forwarded,
            st\<lparr>sockets := (sockets st)
                 (tw := (sockets st tw)\<lparr>sent := sent (sockets st tw) @ [Signal (d\<lparr>sig_from := Some S\<rparr>)]\<rparr>)\<rparr>)
         \<and> sig_from (d\<lparr>sig_from := Some S\<rparr>) = Some S
         \<and> sig_type (d\<lparr>sig_from := Some S\<rparr>) = sig_type d
         \<and> data (d\<lparr>sig_from := Some S\<rparr>) = data d
         \<and> conversationId (d\<lparr>sig_from := Some S\<rparr>) = conversationId d"
proof -
  have "\<not> is_auth d"
    using assms(3,4) by (rule kind_not_auth)
  then show ?thesis
    using assms by (simp add: on_message_not_auth ws_send_def)
qed

text \<open>
  Claim C2, an instance: \<open>u2\<close> sends an offer to \<open>u1\<close>.
\<close>

theorem C2_witness:
  "fst (on_message 2 (Parsed (offer_to ''u1'')) two_clients) = Forwarded
   \<and> sent (sockets (snd (on_message 2 (Parsed (offer_to ''u1'')) two_clients)) 1) =
       [Signal \<lparr>sig_type = Some ''offer'', target = Some ''u1'', data = ''sdp'',
          conversationId = Some 7, sig_userId = None, sig_from = Some ''u2''\<rparr>]"
proof -
  have h1: "userId (sockets two_clients 2) = Some ''u2''"
    by (simp add: two_clients_def)
  have h2: "''u2'' \<noteq> []" by simp
  have h3: "sig_type (offer_to ''u1'') = Some ''offer''"
    by (simp add: offer_to_def)
  have h4: "''offer'' \<in> set signaling_kinds"
    by (simp add: signaling_kinds_def)
  have h5: "target (offer_to ''u1'') = Some ''u1''"
    by (simp add: offer_to_def)
  have h6: "''u1'' \<noteq> []" by simp
  have h7: "map_of (connectedClients two_clients) ''u1'' = Some 1"
    by (simp add: two_clients_def)
  have h8: "readyState (sockets two_clients 1) = OPEN"
    by (simp add: two_clients_def)
  have h9: "\<not> sendThrows (sockets two_clients 1)"
    by (simp add: two_clients_def)
  from C2_forward_delivers_one_copy [OF h1 h2 h3 h4 h5 h6 h7 h8 h9]
  show ?thesis
    by (simp add: two_clients_def offer_to_def)
qed

text \<open>
  Claim C3, as amended. The handler does not examine the type of a message beyond the
  authentication test. A message from a bound connection whose type is none of the
  seven kinds adds a frame to a socket \<open>w\<close> exactly when it is not an authentication
  message, its non-empty target is mapped to \<open>w\<close>, \<open>w\<close> is open and its \<open>send\<close>
  returns normally; the frame is the message with \<open>from\<close> set to the sender. In every
  other case no socket is sent anything.
\<close>

theorem C3_unrecognised_type_is_not_filtered:
  assumes "truthy (userId (sockets st ws))"
    and "\<forall>k \<in> set signaling_kinds. sig_type d \<noteq> Some k"
  shows "sent (sockets (snd (on_message ws (Parsed d) st)) w) =
           sent (sockets st w) @
           (if \<not> is_auth d \<and>
               (\<exists>T. target d = Some T \<and> T \<noteq> [] \<and> map_of (connectedClients st) T = Some w) \<and>
               readyState (sockets st w) = OPEN \<and> \<not> sendThrows (sockets st w)
            then [Signal (d\<lparr>sig_from := userId (sockets st ws)\<rparr>)] else [])"
proof (cases "is_auth d")
  case True
  then show ?thesis
    by (simp add: on_message_auth bind_user_def)
next
  case na: False
  show ?thesis
  proof (cases "target d")
    case None
    with na show ?thesis
      by (simp add: on_message_not_auth)
  next
    case (Some T)
    show ?thesis
    proof (cases "map_of (connectedClients st) T")
      case None
      with na Some show ?thesis
        by (simp add: on_message_not_auth)
    next
      case tw: (Some tw)
      with na Some assms(1) show ?thesis
        by (simp add: on_message_not_auth ws_send_def)
    qed
  qed
qed

text \<open>
  Claim C3 as stated fails: a message of type \<open>ping\<close> from \<open>u2\<close> with target \<open>u1\<close>
  is forwarded to the socket of \<open>u1\<close>.
\<close>

theorem C3_counterexample:
  "''ping'' \<notin> set signaling_kinds
   \<and> truthy (userId ((no_sockets
        (1 := \<lparr>userId = Some ''u1'', readyState = OPEN, sendThrows = False, sent = []\<rparr>,
         2 := \<lparr>userId = Some ''u2'', readyState = OPEN, sendThrows = False, sent = []\<rparr>)) 2
        :: string socket))
   \<and> fst (on_message 2
        (Parsed \<lparr>sig_type = Some ''ping'', target = Some ''u1'', data = ''hello'',
           conversationId = None, sig_userId = None, sig_from = None\<rparr>)
        \<lparr>connectedClients = [(''u1'', 1), (''u2'', 2)],
          sockets = no_sockets
            (1 := \<lparr>userId = Some ''u1'', readyState = OPEN, sendThrows = False, sent = []\<rparr>,
             2 := \<lparr>userId = Some ''u2'', readyState = OPEN, sendThrows = False, sent = []\<rparr>)\<rparr>)
       = Forwarded
   \<and> sent (sockets (snd (on_message 2
        (Parsed \<lparr>sig_type = Some ''ping'', target = Some ''u1'', data = ''hello'',
           conversationId = None, sig_userId = None, sig_from = None\<rparr>)
        \<lparr>connectedClients = [(''u1'', 1), (''u2'', 2)],
          sockets = no_sockets
            (1 := \<lparr>userId = Some ''u1'', readyState = OPEN, sendThrows = False, sent = []\<rparr>,
             2 := \<lparr>userId = Some ''u2'', readyState = OPEN, sendThrows = False, sent = []\<rparr>)\<rparr>)) 1)
       = [Signal \<lparr>sig_type = Some ''ping'', target = Some ''u1'', data = ''hello'',
           conversationId = None, sig_userId = None, sig_from = Some ''u2''\<rparr>]"
  by (simp add: signaling_kinds_def on_message_def ws_send_def)

text \<open>
  Claim C3, an instance of the amended statement, at the same message.
\<close>

theorem C3_witness:
  "sent (sockets (snd (on_message 2
      (Parsed \<lparr>sig_type = Some ''ping'', target = Some ''u1'', data = ''hello'',
         conversationId = None, sig_userId = None, sig_from = None\<rparr>) two_clients)) 1) =
     [Signal \<lparr>sig_type = Some ''ping'', target = Some ''u1'', data = ''hello'',
        conversationId = None, sig_userId = None, sig_from = Some ''u2''\<rparr>]"
proof -
  have h1: "truthy (userId (sockets two_clients 2))"
    by (simp add: two_clients_def)
  have h2: "\<forall>k \<in> set signaling_kinds.
      sig_type \<lparr>sig_type = Some ''ping'', target = Some ''u1'', data = ''hello'',
         conversationId = None, sig_userId = None, sig_from = None\<rparr> \<noteq> Some k"
    by (simp add: signaling_kinds_def)
  from C3_unrecognised_type_is_not_filtered [OF h1 h2, of 1]
  show ?thesis
    by (simp add: two_clients_def is_auth_def)
qed

text \<open>
  Claim C4. A sender is bound to \<open>ws\<close> and the message has one of the seven kinds. If
  its target is not in the map, or is mapped to a socket that is not open, the handler
  takes the not-connected or the invalid-message branch, which only log: the state,
  with the sender's socket and its registration, is unchanged, and no exception is
  raised.
\<close>

theorem C4_unreachable_target_is_no_error:
  assumes "userId (sockets st ws) = Some S" and "S \<noteq> []"
    and "sig_type d = Some k" and "k \<in> set signaling_kinds"
    and "\<forall>T tw. target d = Some T \<longrightarrow> map_of (connectedClients st) T = Some tw \<longrightarrow>
           readyState (sockets st tw) \<noteq> OPEN"
  shows "on_message ws (Parsed d) st = (TargetNotConnected, st) \<or>
         on_message ws (Parsed d) st = (InvalidMessage, st)"
proof -
  have "\<not> is_auth d"
    using assms(3,4) by (rule kind_not_auth)
  then show ?thesis
    using assms(5) by (auto simp add: on_message_not_auth split: option.splits dest: truthyE)
qed

text \<open>
  Claim C4, an instance: \<open>u2\<close> sends an offer to \<open>u9\<close>, who never registered.
\<close>

theorem C4_witness:
  "on_message 2 (Parsed (offer_to ''u9'')) two_clients = (TargetNotConnected, two_clients)"
proof -
  have h1: "userId (sockets two_clients 2) = Some ''u2''"
    by (simp add: two_clients_def)
  have h2: "''u2'' \<noteq> []" by simp
  have h3: "sig_type (offer_to ''u9'') = Some ''offer''"
    by (simp add: offer_to_def)
  have h4: "''offer'' \<in> set signaling_kinds"
    by (simp add: signaling_kinds_def)
  have h5: "\<forall>T tw. target (offer_to ''u9'') = Some T \<longrightarrow>
      map_of (connectedClients two_clients) T = Some tw \<longrightarrow>
      readyState (sockets two_clients tw) \<noteq> OPEN"
    by (simp add: offer_to_def two_clients_def)
  have "on_message 2 (Parsed (offer_to ''u9'')) two_clients \<noteq> (InvalidMessage, two_clients)"
    by (simp add: on_message_def offer_to_def two_clients_def)
  with C4_unreachable_target_is_no_error [OF h1 h2 h3 h4 h5]
  show ?thesis
    by simp
qed

text \<open>
  Claim C5. On a socket with no bound identity, no inbound message is forwarded: no
  socket is sent anything and no socket changes its ready state. A message that is
  not an authentication message, a signaling message among them, takes the
  invalid-message branch and leaves the state unchanged.
\<close>

theorem C5_unbound_sender_is_not_forwarded:
  assumes "\<not> truthy (userId (sockets st ws))"
  shows "(\<forall>w. sent (sockets (snd (on_message ws inb st)) w) = sent (sockets st w))
       \<and> (\<forall>w. readyState (sockets (snd (on_message ws inb st)) w) = readyState (sockets st w))
       \<and> fst (on_message ws inb st) \<noteq> Forwarded
       \<and> (\<forall>d. inb = Parsed d \<and> \<not> is_auth d \<longrightarrow> on_message ws inb st = (InvalidMessage, st))"
proof (cases inb)
  case Malformed
  then show ?thesis by (simp add: on_message_def)
next
  case (Parsed d)
  show ?thesis
  proof (cases "is_auth d")
    case True
    then show ?thesis
      using Parsed by (simp add: on_message_auth bind_user_def)
  next
    case False
    then show ?thesis
      using Parsed assms by (simp add: on_message_not_auth)
  qed
qed

text \<open>
  Claim C5, an instance: a newly connected socket sends an offer to \<open>u1\<close>.
\<close>

theorem C5_witness:
  "on_message 3 (Parsed (offer_to ''u1'')) with_newcomer = (InvalidMessage, with_newcomer)
   \<and> sent (sockets (snd (on_message 3 (Parsed (offer_to ''u1'')) with_newcomer)) 1) = []
   \<and> readyState (sockets (snd (on_message 3 (Parsed (offer_to ''u1'')) with_newcomer)) 3) = OPEN"
proof -
  have h: "\<not> truthy (userId (sockets with_newcomer 3))"
    by (simp add: with_newcomer_def)
  have na: "\<not> is_auth (offer_to ''u1'')"
    by (simp add: is_auth_def offer_to_def)
  have s1: "sent (sockets with_newcomer 1) = []"
    and r3: "readyState (sockets with_newcomer 3) = OPEN"
    by (simp_all add: with_newcomer_def)
  from C5_unbound_sender_is_not_forwarded [OF h, of "Parsed (offer_to ''u1'')"] na s1 r3
  show ?thesis
    by simp
qed

subsection \<open>The registry\<close>

lemma connectedClients_ws_send:
  "ws_send ws f st = Inr st' \<Longrightarrow> connectedClients st' = connectedClients st"
  by (auto simp add: ws_send_def split: if_splits)

lemma connectedClients_forEach_send:
  "connectedClients (snd (forEach_send wsl f st)) = connectedClients st"
proof (induction wsl arbitrary: st)
  case Nil
  show ?case by simp
next
  case (Cons ws rest)
  show ?case
  proof (cases "ws_send ws f st")
    case (Inl e)
    then show ?thesis by (simp add: Cons.IH)
  next
    case (Inr st')
    then show ?thesis
      by (simp add: Cons.IH connectedClients_ws_send)
  qed
qed

lemma distinct_keys_on_message:
  assumes "distinct (map fst (connectedClients st))"
  shows "distinct (map fst (connectedClients (snd (on_message ws inb st))))"
proof (cases inb)
  case Malformed
  with assms show ?thesis by (simp add: on_message_def)
next
  case (Parsed d)
  show ?thesis
  proof (cases "is_auth d")
    case True
    with Parsed assms show ?thesis
      by (simp add: on_message_auth bind_user_def distinct_update)
  next
    case False
    with Parsed assms show ?thesis
      by (auto simp add: on_message_not_auth split: option.splits sum.splits
          dest: connectedClients_ws_send)
  qed
qed

lemma distinct_keys_step:
  assumes "distinct (map fst (connectedClients st))"
  shows "distinct (map fst (connectedClients (step ev st)))"
proof (cases ev)
  case (Message ws inb)
  with assms show ?thesis by (simp add: distinct_keys_on_message)
next
  case (Close ws)
  with assms show ?thesis
    by (simp add: close_event_def on_close_def distinct_delete)
next
  case (Broadcast_ev cid message)
  with assms show ?thesis
    by (simp add: broadcastMessage_def connectedClients_forEach_send)
qed

lemma distinct_keys_run:
  "distinct (map fst (connectedClients st)) \<Longrightarrow> distinct (map fst (connectedClients (run evs st)))"
  unfolding run_def by (induction evs arbitrary: st) (simp_all add: distinct_keys_step)

text \<open>
  Claim C6. After socket \<open>A\<close> and then socket \<open>B\<close> authenticate under the same
  identity \<open>u\<close>, the map sends \<open>u\<close> to \<open>B\<close>, and not to \<open>A\<close> when they differ. In
  every state the relay reaches from start-up, by any sequence of messages, closes
  and broadcasts, the keys of the map are distinct.
\<close>

theorem C6_last_registered_wins:
  assumes "is_auth dA" and "sig_userId dA = Some u"
    and "is_auth dB" and "sig_userId dB = Some u"
  shows "map_of (connectedClients (run [Message A (Parsed dA), Message B (Parsed dB)] st)) u = Some B
       \<and> (A \<noteq> B \<longrightarrow>
            map_of (connectedClients (run [Message A (Parsed dA), Message B (Parsed dB)] st)) u \<noteq> Some A)
       \<and> distinct (map fst (connectedClients (run evs (initial_relay socks))))"
proof -
  have "distinct (map fst (connectedClients (initial_relay socks)))"
    by (simp add: initial_relay_def)
  then have "distinct (map fst (connectedClients (run evs (initial_relay socks))))"
    by (rule distinct_keys_run)
  moreover have "map_of (connectedClients (run [Message A (Parsed dA), Message B (Parsed dB)] st)) u = Some B"
    using assms by (simp add: run_def on_message_auth bind_user_def update_conv')
  ultimately show ?thesis by simp
qed

text \<open>
  Claim C6, an instance: sockets 1 and 2 authenticate as \<open>u1\<close>.
\<close>

theorem C6_witness:
  "map_of (connectedClients
      (run [Message 1 (Parsed (auth_as ''u1'')), Message 2 (Parsed (auth_as ''u1''))]
         (initial_relay no_sockets))) ''u1'' = Some 2
   \<and> distinct (map fst (connectedClients
      (run [Message 1 (Parsed (auth_as ''u1'')), Message 2 (Parsed (auth_as ''u1''))]
         (initial_relay no_sockets))))"
proof -
  have a: "is_auth (auth_as ''u1'')"
    by (simp add: is_auth_def auth_as_def)
  have u: "sig_userId (auth_as ''u1'') = Some ''u1''"
    by (simp add: auth_as_def)
  from C6_last_registered_wins [OF a u a u, where A = 1 and B = 2
      and st = "initial_relay no_sockets"
      and evs = "[Message 1 (Parsed (auth_as ''u1'')), Message 2 (Parsed (auth_as ''u1''))]"
      and socks = no_sockets]
  show ?thesis
    by simp
qed

text \<open>
  Claim C10. Socket \<open>c1\<close> authenticates as \<open>u\<close>, then another socket \<open>c2\<close>, which is
  open, authenticates as \<open>u\<close> and takes the entry; when \<open>c1\<close> then closes, its close
  handler deletes the entry of \<open>u\<close>: the map has no entry for \<open>u\<close> although \<open>c2\<close> is
  still open and bound to \<open>u\<close>.
\<close>

theorem C10_close_of_superseded_connection:
  assumes "is_auth d1" and "sig_userId d1 = Some u"
    and "is_auth d2" and "sig_userId d2 = Some u"
    and "c1 \<noteq> c2" and "readyState (sockets st c2) = OPEN"
  shows "map_of (connectedClients
            (run [Message c1 (Parsed d1), Message c2 (Parsed d2), Close c1] st)) u = None
       \<and> readyState (sockets
            (run [Message c1 (Parsed d1), Message c2 (Parsed d2), Close c1] st) c2) = OPEN
       \<and> userId (sockets
            (run [Message c1 (Parsed d1), Message c2 (Parsed d2), Close c1] st) c2) = Some u
       \<and> map_of (connectedClients
            (run [Message c1 (Parsed d1), Message c2 (Parsed d2)] st)) u = Some c2"
proof -
  from assms(1,2) have "u \<noteq> []"
    by (auto simp add: is_auth_def)
  then show ?thesis
    using assms
    by (simp add: run_def on_message_auth bind_user_def close_event_def on_close_def
        update_conv' delete_conv')
qed

text \<open>
  Claim C10, an instance: sockets 1 and 2 authenticate as \<open>u1\<close>, then socket 1
  closes.
\<close>

theorem C10_witness:
  "map_of (connectedClients
      (run [Message 1 (Parsed (auth_as ''u1'')), Message 2 (Parsed (auth_as ''u1''))]
         two_newcomers)) ''u1'' = Some 2
   \<and> map_of (connectedClients
      (run [Message 1 (Parsed (auth_as ''u1'')), Message 2 (Parsed (auth_as ''u1'')), Close 1]
         two_newcomers)) ''u1'' = None
   \<and> readyState (sockets
      (run [Message 1 (Parsed (auth_as ''u1'')), Message 2 (Parsed (auth_as ''u1'')), Close 1]
         two_newcomers) 2) = OPEN"
proof -
  have a: "is_auth (auth_as ''u1'')"
    by (simp add: is_auth_def auth_as_def)
  have u: "sig_userId (auth_as ''u1'') = Some ''u1''"
    by (simp add: auth_as_def)
  have d: "(1::nat) \<noteq> 2"
    by simp
  have r: "readyState (sockets two_newcomers 2) = OPEN"
    by (simp add: two_newcomers_def)
  from C10_close_of_superseded_connection [OF a u a u d r]
  show ?thesis
    by simp
qed

subsection \<open>The broadcaster\<close>

text \<open>
  What a loop over the sockets \<open>wsl\<close> sends and returns: it sends to the open ones
  among them, in order, up to the first whose \<open>send\<close> throws.
\<close>

lemma forEach_send_Cons_accepts:
  "readyState (sockets st ws) = OPEN \<Longrightarrow> \<not> sendThrows (sockets st ws) \<Longrightarrow>
   forEach_send (ws # rest) f st =
     forEach_send rest f
       (st\<lparr>sockets := (sockets st)(ws := (sockets st ws)\<lparr>sent := sent (sockets st ws) @ [f]\<rparr>)\<rparr>)"
  by (simp add: ws_send_def)

lemma forEach_send_sent:
  "sent (sockets (snd (forEach_send wsl f st)) x) =
     sent (sockets st x) @
     replicate
       (count_list
          (takeWhile (\<lambda>ws. \<not> sendThrows (sockets st ws))
             (filter (\<lambda>ws. readyState (sockets st ws) = OPEN) wsl)) x) f"
proof (induction wsl arbitrary: st)
  case Nil
  show ?case by simp
next
  case (Cons ws rest)
  consider (closed) "readyState (sockets st ws) \<noteq> OPEN"
    | (throws) "readyState (sockets st ws) = OPEN" "sendThrows (sockets st ws)"
    | (accepts) "readyState (sockets st ws) = OPEN" "\<not> sendThrows (sockets st ws)"
    by blast
  then show ?case
  proof cases
    case closed
    then show ?thesis
      by (simp add: Cons.IH)
  next
    case throws
    then show ?thesis
      by (simp add: ws_send_def)
  next
    case accepts
    let ?st1 = "st\<lparr>sockets := (sockets st)(ws := (sockets st ws)\<lparr>sent := sent (sockets st ws) @ [f]\<rparr>)\<rparr>"
    have rs: "readyState (sockets ?st1 y) = readyState (sockets st y)" for y
      by simp
    have th: "sendThrows (sockets ?st1 y) = sendThrows (sockets st y)" for y
      by simp
    have "sent (sockets (snd (forEach_send (ws # rest) f st)) x) =
          sent (sockets (snd (forEach_send rest f ?st1)) x)"
      using accepts by (simp add: forEach_send_Cons_accepts del: forEach_send.simps)
    also have "\<dots> = sent (sockets ?st1 x) @
       replicate
         (count_list
            (takeWhile (\<lambda>ws. \<not> sendThrows (sockets st ws))
               (filter (\<lambda>ws. readyState (sockets st ws) = OPEN) rest)) x) f"
      by (simp only: Cons.IH rs th)
    also have "\<dots> = sent (sockets st x) @
       replicate
         (count_list
            (takeWhile (\<lambda>ws. \<not> sendThrows (sockets st ws))
               (filter (\<lambda>ws. readyState (sockets st ws) = OPEN) (ws # rest))) x) f"
      using accepts by (simp add: replicate_app_Cons_same)
    finally show ?thesis .
  qed
qed

lemma forEach_send_fst:
  "fst (forEach_send wsl f st) =
     (if \<exists>ws \<in> set wsl. readyState (sockets st ws) = OPEN \<and> sendThrows (sockets st ws)
      then Some SendError else None)"
proof (induction wsl arbitrary: st)
  case Nil
  show ?case by simp
next
  case (Cons ws rest)
  consider (closed) "readyState (sockets st ws) \<noteq> OPEN"
    | (throws) "readyState (sockets st ws) = OPEN" "sendThrows (sockets st ws)"
    | (accepts) "readyState (sockets st ws) = OPEN" "\<not> sendThrows (sockets st ws)"
    by blast
  then show ?case
  proof cases
    case closed
    then show ?thesis
      by (auto simp add: Cons.IH)
  next
    case throws
    then show ?thesis
      by (auto simp add: ws_send_def)
  next
    case accepts
    let ?st1 = "st\<lparr>sockets := (sockets st)(ws := (sockets st ws)\<lparr>sent := sent (sockets st ws) @ [f]\<rparr>)\<rparr>"
    have rs: "readyState (sockets ?st1 y) = readyState (sockets st y)" for y
      by simp
    have th: "sendThrows (sockets ?st1 y) = sendThrows (sockets st y)" for y
      by simp
    have "fst (forEach_send (ws # rest) f st) = fst (forEach_send rest f ?st1)"
      using accepts by (simp add: forEach_send_Cons_accepts del: forEach_send.simps)
    also have "\<dots> = (if \<exists>ws \<in> set rest. readyState (sockets st ws) = OPEN \<and> sendThrows (sockets st ws)
      then Some SendError else None)"
      by (simp only: Cons.IH rs th)
    also have "\<dots> = (if \<exists>ws \<in> set (ws # rest). readyState (sockets st ws) = OPEN \<and> sendThrows (sockets st ws)
      then Some SendError else None)"
      using accepts by auto
    finally show ?thesis .
  qed
qed


lemma stored_message_frame:
  "broadcast_frame cid (stored_message_event row) =
     Event [(''type'', Str ''new-message''), (''conversationId'', Num cid), (''data'', Other row)]"
  by (simp add: broadcast_frame_def stored_message_event_def spread_def)

lemma broadcast_sent:
  "sent (sockets (snd (broadcastMessage cid message st)) x) =
     sent (sockets st x) @
     replicate
       (count_list (takeWhile (\<lambda>ws. \<not> sendThrows (sockets st ws)) (open_registered st)) x)
       (broadcast_frame cid message)"
  by (simp add: broadcastMessage_def open_registered_def forEach_send_sent)

lemma broadcast_fst:
  "fst (broadcastMessage cid message st) =
     (if \<exists>ws \<in> set (open_registered st). sendThrows (sockets st ws) then Some SendError else None)"
  by (auto simp add: broadcastMessage_def open_registered_def forEach_send_fst)



text \<open>
  Claim C9. When no \<open>send\<close> on an open socket of the map throws, the broadcast of
  the stored-message event of the message route for conversation \<open>cid\<close> returns
  normally and sends every socket the event, with \<open>conversationId\<close> equal to \<open>cid\<close>,
  once for each of its entries in the map if it is open and not at all otherwise.
  The loop consults no conversation: every open socket of the map is sent the event,
  whatever identity it is bound to.
\<close>

theorem C9_broadcast_reaches_every_open_connection:
  assumes "\<forall>ws \<in> set (open_registered st). \<not> sendThrows (sockets st ws)"
  shows "fst (broadcastMessage cid (stored_message_event row) st) = None
       \<and> (\<forall>x. sent (sockets (snd (broadcastMessage cid (stored_message_event row) st)) x) =
              sent (sockets st x) @
              replicate (count_list (open_registered st) x)
                (Event [(''type'', Str ''new-message''), (''conversationId'', Num cid),
                        (''data'', Other row)]))
       \<and> (\<forall>u x. (u, x) \<in> set (connectedClients st) \<and> readyState (sockets st x) = OPEN \<longrightarrow>
              Event [(''type'', Str ''new-message''), (''conversationId'', Num cid),
                     (''data'', Other row)]
                \<in> set (sent (sockets (snd (broadcastMessage cid (stored_message_event row) st)) x)))"
proof -
  let ?f = "Event [(''type'', Str ''new-message''), (''conversationId'', Num cid), (''data'', Other row)]"
  let ?st' = "snd (broadcastMessage cid (stored_message_event row) st)"
  have all: "takeWhile (\<lambda>ws. \<not> sendThrows (sockets st ws)) (open_registered st) = open_registered st"
    using assms by (simp add: takeWhile_eq_all_conv)
  have sent_eq: "sent (sockets ?st' x) =
      sent (sockets st x) @ replicate (count_list (open_registered st) x) ?f" for x
    by (simp only: broadcast_sent all stored_message_frame)
  have "?f \<in> set (sent (sockets ?st' x))"
    if "(u, x) \<in> set (connectedClients st)" and "readyState (sockets st x) = OPEN" for u x
  proof -
    from that have "x \<in> set (open_registered st)"
      by (force simp add: open_registered_def)
    then have "0 < count_list (open_registered st) x"
      by (simp add: count_list_0_iff zero_less_iff_neq_zero)
    then show ?thesis
      by (simp add: sent_eq)
  qed
  moreover have "fst (broadcastMessage cid (stored_message_event row) st) = None"
    using assms by (simp add: broadcast_fst)
  ultimately show ?thesis
    using sent_eq by blast
qed

text \<open>
  Claim C9, an instance: \<open>u1\<close> and \<open>u2\<close> are registered and open.
\<close>

theorem C9_witness:
  "fst (broadcastMessage 7 (stored_message_event ''hello'') two_clients) = None
   \<and> sent (sockets (snd (broadcastMessage 7 (stored_message_event ''hello'') two_clients)) 1) =
       [Event [(''type'', Str ''new-message''), (''conversationId'', Num 7), (''data'', Other ''hello'')]]
   \<and> sent (sockets (snd (broadcastMessage 7 (stored_message_event ''hello'') two_clients)) 2) =
       [Event [(''type'', Str ''new-message''), (''conversationId'', Num 7), (''data'', Other ''hello'')]]"
proof -
  have reg: "open_registered two_clients = [1, 2]"
    by (simp add: open_registered_def two_clients_def)
  have h: "\<forall>ws \<in> set (open_registered two_clients). \<not> sendThrows (sockets two_clients ws)"
    by (simp add: reg) (simp add: two_clients_def)
  have s: "sent (sockets two_clients (Suc 0)) = []" "sent (sockets two_clients 2) = []"
    by (simp_all add: two_clients_def)
  from C9_broadcast_reaches_every_open_connection [OF h, of 7 "''hello''"]
  show ?thesis
    by (simp add: reg s)
qed

end
